theory Spec2Isabelle
  imports Main
begin

section \<open>JavaScript values\<close>

text \<open>
  The values the machine stores in its fields and receives from the host: a string, a
  function object (named by a number, so that two handlers can be told apart) or
  \<open>undefined\<close>. Host callbacks are opaque: a handler that is invoked is recorded, and
  its body is not part of the model.
\<close>

datatype jsval = Undefined | Str string | Fun nat

text \<open>What \<open>!v\<close> and \<open>v || w\<close> test: \<open>undefined\<close> and the empty string are falsy.\<close>

fun truthy :: "jsval \<Rightarrow> bool" where
  "truthy Undefined = False"
| "truthy (Str s) = (s \<noteq> [])"
| "truthy (Fun f) = True"

text \<open>
  Modelled from the spec: \<open>isString\<close> and \<open>isFunction\<close> of \<open>utils/utils\<close> are not part
  of the sources; they tell the kind of a value.
\<close>

fun isString :: "jsval \<Rightarrow> bool" where
  "isString (Str s) = True"
| "isString v = False"

fun isFunction :: "jsval \<Rightarrow> bool" where
  "isFunction (Fun f) = True"
| "isFunction v = False"

text \<open>
  String coercion, as \<open>+\<close> and \<open>join\<close> perform it. The text of a function object is
  its source, which the model does not hold.
\<close>

fun js_string :: "jsval \<Rightarrow> string" where
  "js_string Undefined = ''undefined''"
| "js_string (Str s) = s"
| "js_string (Fun f) = ''function''"

text \<open>
  What a call can raise: the \<open>Error\<close> that \<open>addHandler\<close> throws with its message, the
  \<open>TypeError\<close> of the engine, and the failure of a resolver. A call returns a result
  and the machine as it stands then, so that what an error leaves behind is visible.
  The messages that \<open>config.debug\<close> sends to the console are not modelled.
\<close>

datatype error = Error string | TypeError | ResolverFailure

datatype 'a result = Ok 'a | Throw error

section \<open>Character classes of the regular expressions\<close>

text \<open>
  Strings are sequences of code units below 256. \<open>\w\<close> is \<open>[A-Za-z0-9_]\<close>, \<open>\s\<close> is the
  white space of that range (tab, line feed, vertical tab, form feed, carriage return,
  space, no-break space) and \<open>.\<close> is every character but the line terminators.
\<close>

definition isWord :: "char \<Rightarrow> bool" where
  "isWord c = (let n = (of_char c :: nat) in
     (48 \<le> n \<and> n \<le> 57) \<or> (65 \<le> n \<and> n \<le> 90) \<or> n = 95 \<or> (97 \<le> n \<and> n \<le> 122))"

definition isSpace :: "char \<Rightarrow> bool" where
  "isSpace c = (let n = (of_char c :: nat) in (9 \<le> n \<and> n \<le> 13) \<or> n = 32 \<or> n = 160)"

definition isLineTerminator :: "char \<Rightarrow> bool" where
  "isLineTerminator c = (let n = (of_char c :: nat) in n = 10 \<or> n = 13)"

definition dotAll :: "string \<Rightarrow> string" where
  "dotAll s = takeWhile (\<lambda>c. \<not> isLineTerminator c) s"

text \<open>\<open>target.match(/\w+/g)\<close>: every maximal run of word characters, in order.\<close>

fun words_from :: "string \<Rightarrow> string \<Rightarrow> string list" where
  "words_from cur [] = (if cur = [] then [] else [cur])"
| "words_from cur (c # cs) =
     (if isWord c then words_from (cur @ [c]) cs
      else (if cur = [] then [] else [cur]) @ words_from [] cs)"

definition words :: "string \<Rightarrow> string list" where
  "words s = words_from [] s"

section \<open>ValueMap\<close>

text \<open>
  Modelled from the spec: \<open>utils/ValueMap\<close>, the ordered multimap that stores the three
  tables, is not part of the sources. Keys are the path strings the machine builds
  (\<open>action + '.' + from\<close>, \<open>'state.a.leave'\<close>); a dotted path addresses a nested key, so
  \<open>has\<close> of a path holds when the path itself or a longer path below it was stored.
  \<open>set\<close> replaces the value at a key (last write wins); \<open>add\<close> and \<open>insert\<close> append to
  the list at a key and create the list when it is absent.
\<close>

type_synonym 'v valuemap = "(string \<times> 'v) list"

definition vm_get :: "'v valuemap \<Rightarrow> string \<Rightarrow> 'v option" where
  "vm_get m k = map_of m k"

fun vm_set :: "'v valuemap \<Rightarrow> string \<Rightarrow> 'v \<Rightarrow> 'v valuemap" where
  "vm_set [] k v = [(k, v)]"
| "vm_set ((k', v') # m) k v = (if k' = k then (k, v) # m else (k', v') # vm_set m k v)"

definition vm_list :: "'v list valuemap \<Rightarrow> string \<Rightarrow> 'v list" where
  "vm_list m k = (case vm_get m k of None \<Rightarrow> [] | Some vs \<Rightarrow> vs)"

definition vm_add :: "'v list valuemap \<Rightarrow> string \<Rightarrow> 'v \<Rightarrow> 'v list valuemap" where
  "vm_add m k v = vm_set m k (vm_list m k @ [v])"

definition vm_insert :: "'v list valuemap \<Rightarrow> string \<Rightarrow> 'v \<Rightarrow> 'v list valuemap" where
  "vm_insert m k v = vm_set m k (vm_list m k @ [v])"

definition below :: "string \<Rightarrow> string \<Rightarrow> bool" where
  "below p k = (k = p \<or> take (Suc (length p)) k = p @ ''.'')"

definition vm_has :: "'v valuemap \<Rightarrow> string \<Rightarrow> bool" where
  "vm_has m p = list_ex (\<lambda>(k, v). below p k) m"

definition vm_has_value :: "'v list valuemap \<Rightarrow> string \<Rightarrow> 'v \<Rightarrow> bool" where
  "vm_has_value m k v = (v \<in> set (vm_list m k))"

section \<open>The configuration and the machine\<close>

text \<open>
  A rule of \<open>config.events\<close> is a shorthand string or an object with the keys \<open>name\<close>,
  \<open>from\<close> and \<open>to\<close>; \<open>to\<close> is a state name or a function that chooses the state when
  the action runs.
\<close>

datatype event = Shorthand string | Keys string string jsval

datatype key = KeyFrom | KeyTo

text \<open>\<open>event[key]\<close>: a string has neither a \<open>from\<close> nor a \<open>to\<close> property.\<close>

fun event_key :: "event \<Rightarrow> key \<Rightarrow> jsval" where
  "event_key (Shorthand s) k = Undefined"
| "event_key (Keys n f t) KeyFrom = Str f"
| "event_key (Keys n f t) KeyTo = t"

text \<open>
  \<open>config.handlers\<close> lists its properties in the order \<open>for ... in\<close> visits them.
\<close>

record config =
  events :: "event list"
  initial :: jsval
  final :: jsval
  defer_init :: bool
  config_handlers :: "(string \<times> jsval) list"
  debug :: bool

text \<open>
  Modelled from the spec: \<open>Transition\<close> is not part of the sources. The spec gives the
  lifecycle object the fields \<open>{action, from, to, args, phase, paused}\<close> and the phases
  pending, leave, action-start, applying-state, enter, action-end and complete.
\<close>

datatype phase = Pending | Leave | ActionStart | Applying | Enter | ActionEnd | Complete

record transition =
  action :: string
  from_state :: jsval
  to_state :: jsval
  args :: "jsval list"
  phase :: phase
  paused :: bool

text \<open>
  Modelled from the spec: the event objects of \<open>Events\<close> are not part of the sources;
  \<open>update\<close> builds a \<open>SystemEvent\<close> or a \<open>TransitionEvent\<close> from the type, the
  lifecycle builds state and action events for a target.
\<close>

datatype payload =
    SystemEvent string
  | TransitionEvent string
  | StateEvent string string
  | ActionEvent string string

text \<open>
  What \<open>dispatch\<close> does is observable only through the handlers it calls, so the model
  keeps a log: the path dispatched, the value of \<open>state\<close> at that moment, the event
  object and the handlers called, in order.
\<close>

record emission =
  path :: string
  at_state :: jsval
  event_object :: payload
  called :: "jsval list"

text \<open>
  The fields of the machine. As \<open>add\<close> fills them, \<open>transitions\<close> lists under each
  state the actions permitted from it, and \<open>actions\<close> holds under \<open>action.from\<close> the
  target of the action there. \<open>emitted\<close> is the log.
\<close>

record machine =
  target :: jsval
  state :: jsval
  states :: "string list"
  transitions :: "string list valuemap"
  actions :: "jsval valuemap"
  handlers :: "jsval list valuemap"
  config :: config
  transition :: "transition option"
  emitted :: "emission list"

text \<open>
  The host: \<open>host f s args\<close> is the value the function object \<open>f\<close> returns when the
  lifecycle calls it as a resolver in state \<open>s\<close> with the arguments \<open>args\<close>.
\<close>

type_synonym host = "nat \<Rightarrow> jsval \<Rightarrow> jsval list \<Rightarrow> jsval"

section \<open>Rules\<close>

text \<open>
  The shorthand pattern \<open>/(\w+)\s*[\|:=]\s*(\w+)\s*([<>-])\s*(\w.*)/\<close>, tried at the
  start of a string. The character classes around each quantifier are disjoint, so each
  greedy run is the longest one and no backtracking changes the groups; the last group
  takes the rest of the line.
\<close>

definition rule_match_at :: "string \<Rightarrow> (string \<times> string \<times> char \<times> string) option" where
  "rule_match_at s =
     (let name = takeWhile isWord s in
      if name = [] then None
      else (case dropWhile isSpace (dropWhile isWord s) of
        [] \<Rightarrow> None
      | sep # r1 \<Rightarrow>
          if sep \<notin> set ''|:='' then None
          else (let r2 = dropWhile isSpace r1; from = takeWhile isWord r2 in
            if from = [] then None
            else (case dropWhile isSpace (dropWhile isWord r2) of
              [] \<Rightarrow> None
            | op # r3 \<Rightarrow>
                if op \<notin> set ''<>-'' then None
                else (case dropWhile isSpace r3 of
                  [] \<Rightarrow> None
                | c # r4 \<Rightarrow>
                    if isWord c then Some (name, from, op, dotAll (c # r4)) else None)))))"

text \<open>\<open>event.match(...)\<close>: the pattern is not anchored, the leftmost match wins.\<close>

fun rule_match :: "string \<Rightarrow> (string \<times> string \<times> char \<times> string) option" where
  "rule_match [] = rule_match_at []"
| "rule_match (c # cs) =
     (case rule_match_at (c # cs) of Some m \<Rightarrow> Some m | None \<Rightarrow> rule_match cs)"

definition addState :: "machine \<Rightarrow> jsval \<Rightarrow> machine" where
  "addState fsm st =
     (case st of
        Str s \<Rightarrow> if s \<notin> set (states fsm) then fsm\<lparr>states := states fsm @ [s]\<rparr> else fsm
      | _ \<Rightarrow> fsm)"

definition addStates :: "machine \<Rightarrow> key \<Rightarrow> event list \<Rightarrow> machine" where
  "addStates fsm k evs = foldl (\<lambda>m ev. addState m (event_key ev k)) fsm evs"

definition add :: "machine \<Rightarrow> string \<Rightarrow> string \<Rightarrow> jsval \<Rightarrow> machine" where
  "add m act from to =
     m\<lparr>actions := vm_set (actions m) (act @ ''.'' @ from) to,
       transitions := vm_add (transitions m) from act\<rparr>"

text \<open>
  The body of \<open>config.events.map\<close> in \<open>initialize\<close>. Destructuring the \<open>null\<close> of a
  string that does not match raises a \<open>TypeError\<close>.
\<close>

definition add_event :: "machine \<Rightarrow> event \<Rightarrow> unit result \<times> machine" where
  "add_event m ev =
     (case ev of
        Shorthand s \<Rightarrow>
          (case rule_match s of
             None \<Rightarrow> (Throw TypeError, m)
           | Some (name, from, op, to) \<Rightarrow>
               if op = CHR ''-'' then (Ok (), add (add m name from (Str to)) name to (Str from))
               else if op = CHR ''<'' then (Ok (), add m name to (Str from))
               else (Ok (), add m name from (Str to)))
      | Keys name from to \<Rightarrow> (Ok (), add m name from to))"

fun add_events :: "machine \<Rightarrow> event list \<Rightarrow> unit result \<times> machine" where
  "add_events m [] = (Ok (), m)"
| "add_events m (ev # evs) =
     (case add_event m ev of
        (Throw e, m') \<Rightarrow> (Throw e, m')
      | (Ok u, m') \<Rightarrow> add_events m' evs)"

section \<open>Handlers\<close>

text \<open>
  An event family is a string. \<open>eventLookup[type]\<close> also finds the members the object
  inherits from \<open>Object.prototype\<close>, which are functions or objects and never strings.
\<close>

datatype family = Family string | Inherited string

definition eventLookup :: "(string \<times> string) list" where
  "eventLookup =
     [(''change'', ''system''), (''update'', ''system''), (''complete'', ''system''),
      (''reset'', ''system''), (''start'', ''action''), (''end'', ''action''),
      (''leave'', ''state''), (''enter'', ''state''), (''add'', ''state''),
      (''remove'', ''state''), (''pause'', ''transition''), (''resume'', ''transition''),
      (''cancel'', ''transition'')]"

definition object_prototype :: "string list" where
  "object_prototype =
     [''constructor'', ''hasOwnProperty'', ''isPrototypeOf'', ''propertyIsEnumerable'',
      ''toLocaleString'', ''toString'', ''valueOf'', ''__proto__'', ''__defineGetter__'',
      ''__defineSetter__'', ''__lookupGetter__'', ''__lookupSetter__'']"

definition lookup_event :: "string \<Rightarrow> family option" where
  "lookup_event type =
     (case map_of eventLookup type of
        Some f \<Rightarrow> Some (Family f)
      | None \<Rightarrow> if type \<in> set object_prototype then Some (Inherited type) else None)"

text \<open>
  The text of a family in a path. For an inherited member it is the text the engine
  prints for the value found: \<open>__proto__\<close> is the prototype object, \<open>constructor\<close> is
  the built-in \<open>Object\<close>, and every other member is a built-in function of its own
  name.
\<close>

fun family_text :: "family \<Rightarrow> string" where
  "family_text (Family f) = f"
| "family_text (Inherited k) =
     (if k = ''__proto__'' then ''[object Object]''
      else if k = ''constructor'' then ''function Object() { [native code] }''
      else ''function '' @ k @ ''() { [native code] }'')"

text \<open>
  The id pattern \<open>/^(?:(\w+)\.)?(\w+[-.\w]*)(?::(.*))?/\<close>. The family group takes part
  only when a word character follows its dot; otherwise the type starts at the first
  character and runs over the dots.
\<close>

definition isTypeChar :: "char \<Rightarrow> bool" where
  "isTypeChar c = (c = CHR ''-'' \<or> c = CHR ''.'' \<or> isWord c)"

definition type_and_target :: "string \<Rightarrow> string \<times> string option" where
  "type_and_target s =
     (takeWhile isTypeChar s,
      (case dropWhile isTypeChar s of
         [] \<Rightarrow> None
       | c # r \<Rightarrow> if c = CHR '':'' then Some (dotAll r) else None))"

definition id_match :: "string \<Rightarrow> (string option \<times> string \<times> string option) option" where
  "id_match s =
     (let w = takeWhile isWord s in
      if w = [] then None
      else (case dropWhile isWord s of
        c # d # r \<Rightarrow>
          if c = CHR ''.'' \<and> isWord d
          then Some (Some w, type_and_target (d # r))
          else Some (None, type_and_target s)
      | _ \<Rightarrow> Some (None, type_and_target s)))"

definition addHandler :: "machine \<Rightarrow> family \<Rightarrow> string \<Rightarrow> string \<Rightarrow> jsval \<Rightarrow> unit result \<times> machine" where
  "addHandler fsm event type tgt fn =
     (if \<not> isFunction fn
      then (Throw (Error (''Error assigning '' @ family_text event @ ''.'' @ type
                          @ '' handler; callback is not a Function'')), fsm)
      else
        let p = (if event = Family ''action'' \<or> event = Family ''state''
                 then family_text event @ ''.'' @ tgt @ ''.'' @ type
                 else family_text event @ ''.'' @ type)
        in (Ok (), fsm\<lparr>handlers := vm_insert (handlers fsm) p fn\<rparr>))"

fun addHandlers :: "machine \<Rightarrow> family \<Rightarrow> string \<Rightarrow> string list \<Rightarrow> jsval \<Rightarrow> unit result \<times> machine" where
  "addHandlers fsm event type [] fn = (Ok (), fsm)"
| "addHandlers fsm event type (tgt # tgts) fn =
     (case addHandler fsm event type tgt fn of
        (Throw e, fsm') \<Rightarrow> (Throw e, fsm')
      | (Ok u, fsm') \<Rightarrow> addHandlers fsm' event type tgts fn)"

text \<open>
  The first half of \<open>on\<close>: the family, the type and the target the id stands for, or
  nothing when the id does not match or names no event, state or action.
\<close>

definition resolve_id :: "machine \<Rightarrow> string \<Rightarrow> (family \<times> string \<times> string option) option" where
  "resolve_id m ident =
     (case id_match ident of
        None \<Rightarrow> None
      | Some (Some e, type, tgt) \<Rightarrow> Some (Family e, type, tgt)
      | Some (None, type, tgt) \<Rightarrow>
          (case lookup_event type of
             Some e \<Rightarrow> Some (e, type, tgt)
           | None \<Rightarrow>
               if type \<in> set (states m) then Some (Family ''state'', ''leave'', Some type)
               else if vm_has (actions m) type then Some (Family ''action'', ''end'', Some type)
               else None))"

text \<open>
  \<open>target ? target.match(/\w+/g) : ['*']\<close>: a target without a word character gives
  \<open>null\<close>, and \<open>null.map\<close> raises a \<open>TypeError\<close>.
\<close>

definition targets_of :: "string option \<Rightarrow> string list option" where
  "targets_of tgt =
     (case tgt of
        None \<Rightarrow> Some [''*'']
      | Some t \<Rightarrow> if t = [] then Some [''*''] else if words t = [] then None else Some (words t))"

definition on :: "machine \<Rightarrow> string \<Rightarrow> jsval \<Rightarrow> unit result \<times> machine" where
  "on m ident fn =
     (case resolve_id m ident of
        None \<Rightarrow> (Ok (), m)
      | Some (event, type, tgt) \<Rightarrow>
          (case targets_of tgt of
             None \<Rightarrow> (Throw TypeError, m)
           | Some tgts \<Rightarrow> addHandlers m event type tgts fn))"

fun add_handlers :: "machine \<Rightarrow> (string \<times> jsval) list \<Rightarrow> unit result \<times> machine" where
  "add_handlers m [] = (Ok (), m)"
| "add_handlers m ((name, fn) # hs) =
     (case on m name fn of
        (Throw e, m') \<Rightarrow> (Throw e, m')
      | (Ok u, m') \<Rightarrow> add_handlers m' hs)"

section \<open>Initialization\<close>

text \<open>
  \<open>initialize\<close> writes the default initial state into the config object the machine
  keeps, so the machine's \<open>config\<close> holds it from then on.
\<close>

definition initialize :: "machine \<Rightarrow> config \<Rightarrow> unit result \<times> machine" where
  "initialize m cfg =
     (let m1 = addStates (addStates (m\<lparr>config := cfg\<rparr>) KeyFrom (events cfg)) KeyTo (events cfg);
          cfg' = (if \<not> truthy (initial cfg)
                  then cfg\<lparr>initial := (case states m1 of [] \<Rightarrow> Undefined | s # ss \<Rightarrow> Str s)\<rparr>
                  else cfg);
          m2 = m1\<lparr>config := cfg'\<rparr>
      in (case add_events m2 (events cfg') of
            (Throw e, m3) \<Rightarrow> (Throw e, m3)
          | (Ok u, m3) \<Rightarrow>
              (case add_handlers m3 (config_handlers cfg') of
                 (Throw e, m4) \<Rightarrow> (Throw e, m4)
               | (Ok u', m4) \<Rightarrow>
                   (Ok (), if \<not> defer_init cfg' then m4\<lparr>state := initial cfg'\<rparr> else m4))))"

definition dispatch :: "machine \<Rightarrow> string \<Rightarrow> payload \<Rightarrow> machine" where
  "dispatch m p ev =
     m\<lparr>emitted := emitted m @
        [\<lparr>path = p, at_state = state m, event_object = ev, called = vm_list (handlers m) p\<rparr>]\<rparr>"

definition update :: "machine \<Rightarrow> string \<Rightarrow> string \<Rightarrow> machine" where
  "update m name type =
     dispatch m (name @ ''.'' @ type)
       (if name = ''system'' then SystemEvent type else TransitionEvent type)"

text \<open>
  The machine the constructor sets up before it looks at the config. Its \<open>config\<close>
  field is the first thing \<open>initialize\<close> assigns.
\<close>

definition empty_machine :: "jsval \<Rightarrow> config \<Rightarrow> machine" where
  "empty_machine tgt cfg =
     \<lparr>target = tgt, state = Str [], states = [], transitions = [], actions = [],
      handlers = [], config = cfg, transition = None, emitted = []\<rparr>"

text \<open>
  \<open>new StateMachine(target, config)\<close> with a config object. An error raised by
  \<open>initialize\<close> leaves the constructor before \<open>system.initialize\<close> is dispatched.
  Without a config the constructor stops at the empty tables; that machine is not
  modelled.
\<close>

definition StateMachine :: "jsval \<Rightarrow> config \<Rightarrow> unit result \<times> machine" where
  "StateMachine tgt cfg =
     (case initialize (empty_machine tgt cfg) cfg of
        (Throw e, m) \<Rightarrow> (Throw e, m)
      | (Ok u, m) \<Rightarrow> (Ok (), update m ''system'' ''initialize''))"

section \<open>The transition lifecycle\<close>

text \<open>
  Modelled from the spec: \<open>Transition.create\<close> is not part of the sources. It records
  the action, the current state as \<open>from\<close>, the target as \<open>to\<close> and the arguments. A
  target that is a function is a resolver: it is called with the machine and the
  arguments, and a result that is not a known state is an error.
\<close>

definition create :: "host \<Rightarrow> machine \<Rightarrow> string \<Rightarrow> jsval list \<Rightarrow> error + transition" where
  "create h fsm act params =
     (let from = state fsm;
          to = (case vm_get (actions fsm) (act @ ''.'' @ js_string from) of
                  None \<Rightarrow> Undefined
                | Some v \<Rightarrow> v);
          t = \<lparr>action = act, from_state = from, to_state = to, args = params,
               phase = Pending, paused = False\<rparr>
      in (case to of
            Fun f \<Rightarrow>
              (case h f from params of
                 Str s \<Rightarrow>
                   if s \<in> set (states fsm) then Inr (t\<lparr>to_state := Str s\<rparr>)
                   else Inl ResolverFailure
               | _ \<Rightarrow> Inl ResolverFailure)
          | _ \<Rightarrow> Inr t))"

text \<open>\<open>isComplete()\<close> of the machine: the state is the configured final state.\<close>

definition isComplete :: "machine \<Rightarrow> bool" where
  "isComplete m = (state m = final (config m))"

text \<open>
  Modelled from the spec: the work of each phase of \<open>Transition.exec\<close>, in the dispatch
  order the spec gives: the literal path of a state or action event first, its \<open>*\<close> path
  second; the state is committed between the start of the action and the entering of
  the new state; natural completion commits the state, clears the active transition and
  emits \<open>system.change\<close> and, on the final state, \<open>system.complete\<close>.
\<close>

fun run_phase :: "transition \<Rightarrow> phase \<Rightarrow> machine \<Rightarrow> machine" where
  "run_phase t Pending m = m"
| "run_phase t Leave m =
     dispatch
       (dispatch m (''state.'' @ js_string (from_state t) @ ''.leave'')
          (StateEvent ''leave'' (js_string (from_state t))))
       ''state.*.leave'' (StateEvent ''leave'' (js_string (from_state t)))"
| "run_phase t ActionStart m =
     dispatch
       (dispatch m (''action.'' @ action t @ ''.start'') (ActionEvent ''start'' (action t)))
       ''action.*.start'' (ActionEvent ''start'' (action t))"
| "run_phase t Applying m = m\<lparr>state := to_state t\<rparr>"
| "run_phase t Enter m =
     dispatch
       (dispatch m (''state.'' @ js_string (to_state t) @ ''.enter'')
          (StateEvent ''enter'' (js_string (to_state t))))
       ''state.*.enter'' (StateEvent ''enter'' (js_string (to_state t)))"
| "run_phase t ActionEnd m =
     dispatch
       (dispatch m (''action.'' @ action t @ ''.end'') (ActionEvent ''end'' (action t)))
       ''action.*.end'' (ActionEvent ''end'' (action t))"
| "run_phase t Complete m =
     (let m1 = update (m\<lparr>state := to_state t, transition := None\<rparr>) ''system'' ''change''
      in if isComplete m1 then update m1 ''system'' ''complete'' else m1)"

fun next_phase :: "phase \<Rightarrow> phase" where
  "next_phase Pending = Leave"
| "next_phase Leave = ActionStart"
| "next_phase ActionStart = Applying"
| "next_phase Applying = Enter"
| "next_phase Enter = ActionEnd"
| "next_phase ActionEnd = Complete"
| "next_phase Complete = Complete"

text \<open>
  Modelled from the spec: the driver looks at the \<open>paused\<close> flag between phases; a
  transition that is paused, or no longer the active one, does not move on.
\<close>

definition advance :: "machine \<Rightarrow> machine" where
  "advance m =
     (case transition m of
        None \<Rightarrow> m
      | Some t \<Rightarrow>
          if paused t then m
          else run_phase t (phase t) (m\<lparr>transition := Some (t\<lparr>phase := next_phase (phase t)\<rparr>)\<rparr>))"

fun drive :: "nat \<Rightarrow> machine \<Rightarrow> machine" where
  "drive 0 m = m"
| "drive (Suc n) m = drive n (advance m)"

text \<open>
  Modelled from the spec: \<open>transition.exec()\<close> drives the transition on, one step for
  each of the seven phases.
\<close>

definition exec :: "machine \<Rightarrow> machine" where
  "exec m = drive 7 m"

text \<open>
  Modelled from the spec: \<open>transition.pause()\<close> sets the flag; \<open>transition.resume()\<close>
  is valid only while paused and continues from the phase the transition is at.
\<close>

definition transition_pause :: "machine \<Rightarrow> machine" where
  "transition_pause m =
     (case transition m of
        None \<Rightarrow> m
      | Some t \<Rightarrow> m\<lparr>transition := Some (t\<lparr>paused := True\<rparr>)\<rparr>)"

definition transition_resume :: "machine \<Rightarrow> machine" where
  "transition_resume m =
     (case transition m of
        None \<Rightarrow> m
      | Some t \<Rightarrow>
          if paused t then exec (m\<lparr>transition := Some (t\<lparr>paused := False\<rparr>)\<rparr>) else m)"

section \<open>The api\<close>

text \<open>
  \<open>this.transitions.has(this.state, action)\<close>: a state that is not a string names no
  key of the table.
\<close>

definition can :: "machine \<Rightarrow> string \<Rightarrow> bool" where
  "can m act =
     (case state m of
        Str s \<Rightarrow> vm_has_value (transitions m) s act
      | _ \<Rightarrow> False)"

definition cannot :: "machine \<Rightarrow> string \<Rightarrow> bool" where
  "cannot m act = (\<not> can m act)"

text \<open>
  \<open>do(action, ...rest)\<close>. An error of \<open>Transition.create\<close> leaves the function before
  the assignment to \<open>this.transition\<close>.
\<close>

definition do_action :: "host \<Rightarrow> machine \<Rightarrow> string \<Rightarrow> jsval list \<Rightarrow> bool result \<times> machine" where
  "do_action h m act rest =
     (if can m act
      then (case create h m act rest of
              Inl e \<Rightarrow> (Throw e, m)
            | Inr t \<Rightarrow>
                (Ok True, exec (update (m\<lparr>transition := Some t\<rparr>) ''transition'' ''start'')))
      else (Ok False, m))"

text \<open>
  The handlers that \<open>dispatch\<close> calls are functions of the host, and such a function
  can call back into the machine. \<open>call_handlers body m p\<close> runs, for the handlers
  registered at \<open>p\<close> in their order, what \<open>body\<close> says each of them does to the machine.
\<close>

definition call_handlers :: "(jsval \<Rightarrow> machine \<Rightarrow> machine) \<Rightarrow> machine \<Rightarrow> string \<Rightarrow> machine" where
  "call_handlers body m p = foldl (\<lambda>m' fn. body fn m') m (vm_list (handlers m) p)"

text \<open>
  \<open>do(action, ...rest)\<close> with the bodies of the handlers of \<open>transition.start\<close>. After
  that dispatch the source calls \<open>this.transition.exec()\<close> without a test: when a
  handler has discarded the transition, \<open>this.transition\<close> is the \<open>null\<close> of the
  prototype, and the call raises a \<open>TypeError\<close>. With handlers that leave the machine
  alone this is \<open>do_action\<close>.
\<close>

definition do_action_reentrant ::
  "(jsval \<Rightarrow> machine \<Rightarrow> machine) \<Rightarrow> host \<Rightarrow> machine \<Rightarrow> string \<Rightarrow> jsval list \<Rightarrow> bool result \<times> machine" where
  "do_action_reentrant body h m act rest =
     (if can m act
      then (case create h m act rest of
              Inl e \<Rightarrow> (Throw e, m)
            | Inr t \<Rightarrow>
                (let m1 = call_handlers body
                            (update (m\<lparr>transition := Some t\<rparr>) ''transition'' ''start'')
                            ''transition.start''
                 in (case transition m1 of
                       None \<Rightarrow> (Throw TypeError, m1)
                     | Some t' \<Rightarrow> (Ok True, exec m1))))
      else (Ok False, m))"

definition isStarted :: "machine \<Rightarrow> bool" where
  "isStarted m = (state m \<noteq> Str [])"

definition isTransitioning :: "machine \<Rightarrow> bool" where
  "isTransitioning m = (transition m \<noteq> None)"

definition isPaused :: "machine \<Rightarrow> bool" where
  "isPaused m = (case transition m of None \<Rightarrow> False | Some t \<Rightarrow> paused t)"

definition pause :: "machine \<Rightarrow> machine" where
  "pause m =
     (case transition m of
        None \<Rightarrow> m
      | Some t \<Rightarrow> update (transition_pause m) ''transition'' ''pause'')"

definition resume :: "machine \<Rightarrow> machine" where
  "resume m =
     (case transition m of
        None \<Rightarrow> m
      | Some t \<Rightarrow> transition_resume (update m ''transition'' ''resume''))"

definition cancel :: "machine \<Rightarrow> machine" where
  "cancel m =
     (case transition m of
        None \<Rightarrow> m
      | Some t \<Rightarrow>
          update (m\<lparr>state := from_state t, transition := None\<rparr>) ''transition'' ''cancel'')"

definition end_transition :: "machine \<Rightarrow> machine" where
  "end_transition m =
     (case transition m of
        None \<Rightarrow> m
      | Some t \<Rightarrow>
          (let m1 = update (update (m\<lparr>state := to_state t, transition := None\<rparr>)
                      ''transition'' ''end'') ''system'' ''change''
           in if isComplete m1 then update m1 ''system'' ''complete'' else m1))"

definition reset :: "machine \<Rightarrow> jsval \<Rightarrow> machine" where
  "reset m init =
     update (m\<lparr>state := (if truthy init then init else initial (config m)),
               transition := None\<rparr>) ''system'' ''reset''"

text \<open>The four lifecycle calls a host can make on a machine, and a run of them.\<close>

datatype lifecycle_call = CallPause | CallResume | CallCancel | CallEnd

fun call :: "lifecycle_call \<Rightarrow> machine \<Rightarrow> machine" where
  "call CallPause m = pause m"
| "call CallResume m = resume m"
| "call CallCancel m = cancel m"
| "call CallEnd m = end_transition m"

definition calls :: "lifecycle_call list \<Rightarrow> machine \<Rightarrow> machine" where
  "calls cs m = foldl (\<lambda>m' c. call c m') m cs"

text \<open>The part of the log a step adds: what is emitted between two machines.\<close>

definition emitted_since :: "machine \<Rightarrow> machine \<Rightarrow> emission list" where
  "emitted_since m m' = drop (length (emitted m)) (emitted m')"

section \<open>The order of the states\<close>

text \<open>
  The order in which the elements of a list occur first, without repetitions.
\<close>

fun first_seen :: "'a list \<Rightarrow> 'a list" where
  "first_seen [] = []"
| "first_seen (x # xs) = x # first_seen (removeAll x xs)"

definition strings_of :: "jsval list \<Rightarrow> string list" where
  "strings_of vs = concat (map (\<lambda>v. case v of Str s \<Rightarrow> [s] | _ \<Rightarrow> []) vs)"

text \<open>The strings that \<open>event[key]\<close> gives over a rule list, in the order of the rules.\<close>

definition key_names :: "key \<Rightarrow> event list \<Rightarrow> string list" where
  "key_names k evs = strings_of (map (\<lambda>ev. event_key ev k) evs)"

fun is_record :: "event \<Rightarrow> bool" where
  "is_record (Keys n f t) = True"
| "is_record (Shorthand s) = False"

text \<open>
  The order the specification words: the rule list is read once, and each rule gives
  its \<open>from\<close> and then its \<open>to\<close>; a shorthand string gives the two states it names.
\<close>

fun rule_names :: "event \<Rightarrow> string list" where
  "rule_names (Keys n f t) = strings_of [Str f, t]"
| "rule_names (Shorthand s) =
     (case rule_match s of
        None \<Rightarrow> []
      | Some (n, f, op, t) \<Rightarrow> if op = CHR ''<'' then [t, f] else [f, t])"

definition spec_state_order :: "event list \<Rightarrow> string list" where
  "spec_state_order evs = first_seen (concat (map rule_names evs))"

section \<open>Example machines\<close>

text \<open>
  The machine of the specification's examples: one rule \<open>next\<close> from \<open>a\<close> to \<open>b\<close>,
  \<open>b\<close> final, and one handler on leaving \<open>a\<close>.
\<close>

definition example_config :: config where
  "example_config =
     \<lparr>events = [Keys ''next'' ''a'' (Str ''b'')], initial = Undefined, final = Str ''b'',
      defer_init = False, config_handlers = [(''a'', Fun 0)], debug = False\<rparr>"

definition example_machine :: machine where
  "example_machine = snd (StateMachine Undefined example_config)"

definition two_rule_config :: config where
  "two_rule_config =
     \<lparr>events = [Keys ''n'' ''a'' (Str ''b''), Keys ''m'' ''c'' (Str ''d'')],
      initial = Undefined, final = Undefined, defer_init = False, config_handlers = [],
      debug = False\<rparr>"

definition deferred_config :: config where
  "deferred_config = example_config\<lparr>defer_init := True\<rparr>"

text \<open>
  The example machine in the middle of \<open>next\<close>: the state is committed, the transition
  is paused before the handlers of \<open>enter\<close>.
\<close>

definition paused_machine :: machine where
  "paused_machine =
     example_machine
       \<lparr>state := Str ''b'',
        transition := Some \<lparr>action = ''next'', from_state = Str ''a'', to_state = Str ''b'',
                            args = [], phase = Enter, paused = True\<rparr>\<rparr>"

text \<open>A config whose only rule is the chained shorthand of the specification.\<close>

definition chain_config :: config where
  "chain_config =
     \<lparr>events = [Shorthand ''next: a > b > c''], initial = Undefined, final = Undefined,
      defer_init = False, config_handlers = [], debug = False\<rparr>"

text \<open>A host whose functions all return a state no machine here knows.\<close>

definition stray_host :: host where
  "stray_host f s params = Str ''nowhere''"

text \<open>
  The example machine with one handler at \<open>transition.start\<close>, and the body of that
  handler: it calls \<open>cancel()\<close> on the machine. Every other handler leaves the machine
  alone.
\<close>

definition start_handler_config :: config where
  "start_handler_config = example_config\<lparr>config_handlers := [(''transition.start'', Fun 8)]\<rparr>"

definition start_handler_machine :: machine where
  "start_handler_machine = snd (StateMachine Undefined start_handler_config)"

definition cancels_on_start :: "jsval \<Rightarrow> machine \<Rightarrow> machine" where
  "cancels_on_start fn m = (if fn = Fun 8 then cancel m else m)"

section \<open>What compilation and registration leave alone\<close>

text \<open>
  Registering handlers changes the handler table only, adding rules changes the two
  rule tables only, and collecting states changes the states list only, whether the
  call returns or raises.
\<close>

lemma addHandler_frame:
  "addHandler m ev ty tg fn = (r, m') \<Longrightarrow>
     states m' = states m \<and> actions m' = actions m \<and> transitions m' = transitions m \<and>
     state m' = state m \<and> config m' = config m \<and> transition m' = transition m \<and>
     emitted m' = emitted m \<and> target m' = target m"
  by (auto simp: addHandler_def Let_def split: if_splits)

lemma addHandlers_frame:
  "addHandlers m ev ty tgs fn = (r, m') \<Longrightarrow>
     states m' = states m \<and> actions m' = actions m \<and> transitions m' = transitions m \<and>
     state m' = state m \<and> config m' = config m \<and> transition m' = transition m \<and>
     emitted m' = emitted m \<and> target m' = target m"
proof (induction tgs arbitrary: m)
  case Nil
  then show ?case by simp
next
  case (Cons tg tgs)
  obtain r1 m1 where a: "addHandler m ev ty tg fn = (r1, m1)" by (cases "addHandler m ev ty tg fn")
  show ?case
  proof (cases r1)
    case (Ok u)
    with Cons.prems a have "addHandlers m1 ev ty tgs fn = (r, m')" by simp
    from Cons.IH[OF this] addHandler_frame[OF a] show ?thesis by simp
  next
    case (Throw e)
    with Cons.prems a have "m' = m1" by simp
    with addHandler_frame[OF a] show ?thesis by simp
  qed
qed

lemma on_frame:
  "on m ident fn = (r, m') \<Longrightarrow>
     states m' = states m \<and> actions m' = actions m \<and> transitions m' = transitions m \<and>
     state m' = state m \<and> config m' = config m \<and> transition m' = transition m \<and>
     emitted m' = emitted m \<and> target m' = target m"
  by (auto simp: on_def split: option.splits dest: addHandlers_frame)

lemma add_handlers_frame:
  "add_handlers m hs = (r, m') \<Longrightarrow>
     states m' = states m \<and> actions m' = actions m \<and> transitions m' = transitions m \<and>
     state m' = state m \<and> config m' = config m \<and> transition m' = transition m \<and>
     emitted m' = emitted m \<and> target m' = target m"
proof (induction hs arbitrary: m)
  case Nil
  then show ?case by simp
next
  case (Cons h hs)
  obtain name fn where h: "h = (name, fn)" by (cases h)
  obtain r1 m1 where a: "on m name fn = (r1, m1)" by (cases "on m name fn")
  show ?case
  proof (cases r1)
    case (Ok u)
    with Cons.prems a h have "add_handlers m1 hs = (r, m')" by simp
    from Cons.IH[OF this] on_frame[OF a] show ?thesis by simp
  next
    case (Throw e)
    with Cons.prems a h have "m' = m1" by simp
    with on_frame[OF a] show ?thesis by simp
  qed
qed

lemma add_event_frame:
  "add_event m ev = (r, m') \<Longrightarrow>
     states m' = states m \<and> handlers m' = handlers m \<and>
     state m' = state m \<and> config m' = config m \<and> transition m' = transition m \<and>
     emitted m' = emitted m \<and> target m' = target m"
  by (auto simp: add_event_def add_def split: event.splits option.splits if_splits)

lemma add_events_frame:
  "add_events m evs = (r, m') \<Longrightarrow>
     states m' = states m \<and> handlers m' = handlers m \<and>
     state m' = state m \<and> config m' = config m \<and> transition m' = transition m \<and>
     emitted m' = emitted m \<and> target m' = target m"
proof (induction evs arbitrary: m)
  case Nil
  then show ?case by simp
next
  case (Cons ev evs)
  obtain r1 m1 where a: "add_event m ev = (r1, m1)" by (cases "add_event m ev")
  show ?case
  proof (cases r1)
    case (Ok u)
    with Cons.prems a have "add_events m1 evs = (r, m')" by simp
    from Cons.IH[OF this] add_event_frame[OF a] show ?thesis by simp
  next
    case (Throw e)
    with Cons.prems a have "m' = m1" by simp
    with add_event_frame[OF a] show ?thesis by simp
  qed
qed

lemma addState_frame:
  "handlers (addState m s) = handlers m \<and> actions (addState m s) = actions m \<and>
   transitions (addState m s) = transitions m \<and> state (addState m s) = state m \<and>
   config (addState m s) = config m \<and> transition (addState m s) = transition m \<and>
   emitted (addState m s) = emitted m \<and> target (addState m s) = target m"
  by (simp add: addState_def split: jsval.splits)

lemma addStates_frame:
  "handlers (addStates m k evs) = handlers m \<and> actions (addStates m k evs) = actions m \<and>
   transitions (addStates m k evs) = transitions m \<and> state (addStates m k evs) = state m \<and>
   config (addStates m k evs) = config m \<and> transition (addStates m k evs) = transition m \<and>
   emitted (addStates m k evs) = emitted m \<and> target (addStates m k evs) = target m"
  unfolding addStates_def
  by (induction evs arbitrary: m) (simp_all add: addState_frame)

section \<open>The states list\<close>

lemma removeAll_filter_conv: "removeAll x (filter P xs) = filter (\<lambda>y. P y \<and> y \<noteq> x) xs"
  by (induction xs) auto

lemma set_first_seen: "set (first_seen xs) = set xs"
  by (induction xs rule: first_seen.induct) auto

lemma distinct_first_seen: "distinct (first_seen xs)"
  by (induction xs rule: first_seen.induct) (auto simp: set_first_seen)

lemma first_seen_append:
  "first_seen (xs @ ys) = first_seen xs @ first_seen (filter (\<lambda>y. y \<notin> set xs) ys)"
proof (induction xs arbitrary: ys rule: first_seen.induct)
  case 1
  then show ?case by simp
next
  case (2 x xs)
  have "filter (\<lambda>y. y \<notin> set (removeAll x xs)) (removeAll x ys) = filter (\<lambda>y. y \<notin> set (x # xs)) ys"
    by (induction ys) auto
  with 2[of "removeAll x ys"] show ?case by simp
qed

lemma states_foldl_addState:
  "states (foldl addState m vs) =
     states m @ first_seen (filter (\<lambda>s. s \<notin> set (states m)) (strings_of vs))"
proof (induction vs arbitrary: m)
  case Nil
  then show ?case by (simp add: strings_of_def)
next
  case (Cons v vs)
  show ?case
  proof (cases v)
    case (Str s)
    show ?thesis
    proof (cases "s \<in> set (states m)")
      case True
      with Str have "addState m v = m" by (simp add: addState_def)
      with Cons.IH[of m] Str True show ?thesis by (simp add: strings_of_def)
    next
      case False
      with Str have st: "states (addState m v) = states m @ [s]" by (simp add: addState_def)
      have "removeAll s (filter (\<lambda>s. s \<notin> set (states m)) (strings_of vs)) =
            filter (\<lambda>y. y \<notin> set (states m @ [s])) (strings_of vs)"
        by (auto simp: removeAll_filter_conv intro: filter_cong)
      with Cons.IH[of "addState m v"] st Str False show ?thesis
        by (simp add: strings_of_def removeAll_filter_conv)
    qed
  next
    case Undefined
    then have "addState m v = m" by (simp add: addState_def)
    with Cons.IH[of m] Undefined show ?thesis by (simp add: strings_of_def)
  next
    case (Fun f)
    then have "addState m v = m" by (simp add: addState_def)
    with Cons.IH[of m] Fun show ?thesis by (simp add: strings_of_def)
  qed
qed

lemma foldl_addState_map:
  "foldl (\<lambda>m ev. addState m (event_key ev k)) m evs = foldl addState m (map (\<lambda>ev. event_key ev k) evs)"
  by (induction evs arbitrary: m) simp_all

lemma states_addStates:
  "states (addStates m k evs) =
     states m @ first_seen (filter (\<lambda>s. s \<notin> set (states m)) (key_names k evs))"
  by (simp add: addStates_def key_names_def foldl_addState_map states_foldl_addState)

lemma states_initialize:
  "states (snd (initialize m cfg)) =
     states (addStates (addStates m KeyFrom (events cfg)) KeyTo (events cfg))"
proof -
  let ?m1 = "addStates (addStates (m\<lparr>config := cfg\<rparr>) KeyFrom (events cfg)) KeyTo (events cfg)"
  let ?cfg = "if \<not> truthy (initial cfg)
                  then cfg\<lparr>initial := (case states ?m1 of [] \<Rightarrow> Undefined | s # ss \<Rightarrow> Str s)\<rparr>
                  else cfg"
  let ?m2 = "?m1\<lparr>config := ?cfg\<rparr>"
  obtain r3 m3 where a: "add_events ?m2 (events ?cfg) = (r3, m3)" by (cases "add_events ?m2 (events ?cfg)")
  obtain r4 m4 where b: "add_handlers m3 (config_handlers ?cfg) = (r4, m4)" by (cases "add_handlers m3 (config_handlers ?cfg)")
  have s3: "states m3 = states ?m1" using add_events_frame[OF a] by simp
  have s4: "states m4 = states ?m1" using add_handlers_frame[OF b] s3 by simp
  have s1: "states ?m1 = states (addStates (addStates m KeyFrom (events cfg)) KeyTo (events cfg))"
    by (simp add: states_addStates)
  have "states (snd (initialize m cfg)) = states ?m1"
    unfolding initialize_def Let_def using a b s3 s4
    by (cases r3; cases r4) (simp_all)
  with s1 show ?thesis by simp
qed

text \<open>The definitions that evaluate the constructor on a concrete config.\<close>

lemmas eval_defs =
  StateMachine_def initialize_def empty_machine_def addStates_def addState_def add_def
  add_event_def vm_add_def vm_list_def vm_get_def vm_insert_def on_def resolve_id_def
  id_match_def type_and_target_def isTypeChar_def isWord_def isSpace_def
  isLineTerminator_def dotAll_def lookup_event_def eventLookup_def object_prototype_def
  targets_of_def words_def addHandler_def update_def dispatch_def rule_match_at_def

lemma states_StateMachine:
  "states (snd (StateMachine tgt cfg)) =
     first_seen (key_names KeyFrom (events cfg) @ key_names KeyTo (events cfg))"
proof -
  have "states (snd (StateMachine tgt cfg)) = states (snd (initialize (empty_machine tgt cfg) cfg))"
    by (cases "initialize (empty_machine tgt cfg) cfg" rule: prod.exhaust[where 'a="unit result"])
       (auto simp: StateMachine_def update_def dispatch_def split: result.splits)
  also have "\<dots> = first_seen (key_names KeyFrom (events cfg)) @
      first_seen (filter (\<lambda>s. s \<notin> set (key_names KeyFrom (events cfg))) (key_names KeyTo (events cfg)))"
    by (simp add: states_initialize states_addStates empty_machine_def set_first_seen)
  finally show ?thesis by (simp add: first_seen_append)
qed

text \<open>
  C6, as amended. For a config whose rules are all \<open>{name, from, to}\<close> records, the
  states list of the constructed machine has no duplicates, and its order is the order
  of first occurrence in the sequence made of the string \<open>from\<close> values of all rules,
  in rule order, followed by the string \<open>to\<close> values of all rules, in rule order:
  \<open>initialize\<close> collects all \<open>from\<close> fields before any \<open>to\<close> field.
\<close>

theorem states_in_order_of_from_then_to:
  assumes "list_all is_record (events cfg)"
  shows "distinct (states (snd (StateMachine tgt cfg))) \<and>
         states (snd (StateMachine tgt cfg)) =
           first_seen (key_names KeyFrom (events cfg) @ key_names KeyTo (events cfg))"
  by (simp add: states_StateMachine distinct_first_seen)

text \<open>Two rules \<open>a \<rightarrow> b\<close> and \<open>c \<rightarrow> d\<close> give the states \<open>a, c, b, d\<close>.\<close>

theorem states_in_order_of_from_then_to_witness:
  "list_all is_record (events two_rule_config) \<and>
   distinct (states (snd (StateMachine Undefined two_rule_config))) \<and>
   states (snd (StateMachine Undefined two_rule_config)) = [''a'', ''c'', ''b'', ''d'']"
proof -
  have h: "list_all is_record (events two_rule_config)"
    by (simp add: two_rule_config_def)
  have "first_seen (key_names KeyFrom (events two_rule_config) @ key_names KeyTo (events two_rule_config))
        = [''a'', ''c'', ''b'', ''d'']"
    by (simp add: two_rule_config_def key_names_def strings_of_def)
  with h states_in_order_of_from_then_to[OF h, of Undefined] show ?thesis by simp
qed

text \<open>
  C6 as stated fails on the same two rules: read rule by rule, the first occurrences
  are \<open>a, b, c, d\<close>, and the machine holds \<open>a, c, b, d\<close>.
\<close>

theorem states_rule_by_rule_counterexample:
  "states (snd (StateMachine Undefined two_rule_config)) = [''a'', ''c'', ''b'', ''d''] \<and>
   spec_state_order (events two_rule_config) = [''a'', ''b'', ''c'', ''d''] \<and>
   states (snd (StateMachine Undefined two_rule_config)) \<noteq> spec_state_order (events two_rule_config)"
  by (simp add: states_StateMachine two_rule_config_def key_names_def strings_of_def spec_state_order_def)

section \<open>Construction\<close>

lemma example_machine_eq:
  "example_machine =
     \<lparr>target = Undefined, state = Str ''a'', states = [''a'', ''b''],
      transitions = [(''a'', [''next''])], actions = [(''next.a'', Str ''b'')],
      handlers = [(''state.a.leave'', [Fun 0])],
      config = \<lparr>events = [Keys ''next'' ''a'' (Str ''b'')], initial = Str ''a'',
                 final = Str ''b'', defer_init = False, config_handlers = [(''a'', Fun 0)],
                 debug = False\<rparr>,
      transition = None,
      emitted = [\<lparr>path = ''system.initialize'', at_state = Str ''a'',
                  event_object = SystemEvent ''initialize'', called = []\<rparr>]\<rparr>"
  by (simp add: example_machine_def example_config_def eval_defs)

lemma emitted_initialize: "emitted (snd (initialize m cfg)) = emitted m"
proof -
  let ?m1 = "addStates (addStates (m\<lparr>config := cfg\<rparr>) KeyFrom (events cfg)) KeyTo (events cfg)"
  let ?cfg = "if \<not> truthy (initial cfg)
                  then cfg\<lparr>initial := (case states ?m1 of [] \<Rightarrow> Undefined | s # ss \<Rightarrow> Str s)\<rparr>
                  else cfg"
  let ?m2 = "?m1\<lparr>config := ?cfg\<rparr>"
  obtain r3 m3 where a: "add_events ?m2 (events ?cfg) = (r3, m3)" by (cases "add_events ?m2 (events ?cfg)")
  obtain r4 m4 where b: "add_handlers m3 (config_handlers ?cfg) = (r4, m4)" by (cases "add_handlers m3 (config_handlers ?cfg)")
  have s3: "emitted m3 = emitted m" using add_events_frame[OF a] by (simp add: addStates_frame)
  have s4: "emitted m4 = emitted m" using add_handlers_frame[OF b] s3 by simp
  show ?thesis
    unfolding initialize_def Let_def using a b s3 s4
    by (cases r3; cases r4) (simp_all)
qed

lemma state_initialize_deferred:
  assumes "defer_init cfg"
  shows "state (snd (initialize m cfg)) = state m"
proof -
  let ?m1 = "addStates (addStates (m\<lparr>config := cfg\<rparr>) KeyFrom (events cfg)) KeyTo (events cfg)"
  let ?cfg = "if \<not> truthy (initial cfg)
                  then cfg\<lparr>initial := (case states ?m1 of [] \<Rightarrow> Undefined | s # ss \<Rightarrow> Str s)\<rparr>
                  else cfg"
  let ?m2 = "?m1\<lparr>config := ?cfg\<rparr>"
  obtain r3 m3 where a: "add_events ?m2 (events ?cfg) = (r3, m3)" by (cases "add_events ?m2 (events ?cfg)")
  obtain r4 m4 where b: "add_handlers m3 (config_handlers ?cfg) = (r4, m4)" by (cases "add_handlers m3 (config_handlers ?cfg)")
  have s3: "state m3 = state m" using add_events_frame[OF a] by (simp add: addStates_frame)
  have s4: "state m4 = state m" using add_handlers_frame[OF b] s3 by simp
  have d: "defer_init ?cfg" using assms by simp
  show ?thesis
    unfolding initialize_def Let_def using a b s3 s4 d
    by (cases r3; cases r4) (simp_all)
qed

text \<open>
  C9, as amended. When the constructor returns for a config, \<open>system.initialize\<close> is
  what it has emitted, exactly once, whether or not \<open>config.defer\<close> is set; when
  \<open>config.defer\<close> is set the state is still the empty string.
\<close>

theorem initialize_emitted_once_deferred_or_not:
  assumes "StateMachine tgt cfg = (Ok (), m)"
  shows "map path (emitted m) = [''system.initialize''] \<and>
         (defer_init cfg \<longrightarrow> state m = Str [])"
proof -
  obtain r0 m0 where i: "initialize (empty_machine tgt cfg) cfg = (r0, m0)"
    by (cases "initialize (empty_machine tgt cfg) cfg")
  from assms i have m: "m = update m0 ''system'' ''initialize''"
    by (cases r0) (simp_all add: StateMachine_def)
  have e: "emitted m0 = []"
    using emitted_initialize[of "empty_machine tgt cfg" cfg] i by (simp add: empty_machine_def)
  have s: "defer_init cfg \<Longrightarrow> state m0 = Str []"
    using state_initialize_deferred[of cfg "empty_machine tgt cfg"] i by (simp add: empty_machine_def)
  from m e s show ?thesis by (simp add: update_def dispatch_def)
qed

text \<open>The deferred example config: one \<open>system.initialize\<close>, empty state.\<close>

theorem initialize_emitted_once_deferred_or_not_witness:
  "StateMachine Undefined deferred_config = (Ok (), snd (StateMachine Undefined deferred_config)) \<and>
   map path (emitted (snd (StateMachine Undefined deferred_config))) = [''system.initialize''] \<and>
   defer_init deferred_config \<and> state (snd (StateMachine Undefined deferred_config)) = Str []"
proof -
  have h: "StateMachine Undefined deferred_config = (Ok (), snd (StateMachine Undefined deferred_config))"
    by (simp add: deferred_config_def example_config_def eval_defs)
  have d: "defer_init deferred_config" by (simp add: deferred_config_def)
  from initialize_emitted_once_deferred_or_not[OF h] h d show ?thesis by simp
qed

text \<open>
  C9 as stated fails: the config defers initialization, and \<open>system.initialize\<close> is
  emitted all the same.
\<close>

theorem initialize_emitted_when_deferred_counterexample:
  "defer_init deferred_config \<and>
   fst (StateMachine Undefined deferred_config) = Ok () \<and>
   map path (emitted (snd (StateMachine Undefined deferred_config))) = [''system.initialize'']"
  by (simp add: deferred_config_def example_config_def eval_defs)

section \<open>Pause, resume, cancel and end\<close>

text \<open>
  C10. On a machine with no active transition, \<open>pause()\<close>, \<open>resume()\<close>, \<open>cancel()\<close>
  and \<open>end()\<close> return the machine as it was: no field changes, so the state is
  unchanged and nothing is emitted.
\<close>

theorem lifecycle_calls_without_transition:
  assumes "transition m = None"
  shows "pause m = m \<and> resume m = m \<and> cancel m = m \<and> end_transition m = m"
  using assms by (simp add: pause_def resume_def cancel_def end_transition_def)

text \<open>The example machine after construction has no active transition.\<close>

theorem lifecycle_calls_without_transition_witness:
  "transition example_machine = None \<and>
   pause example_machine = example_machine \<and> resume example_machine = example_machine \<and>
   cancel example_machine = example_machine \<and> end_transition example_machine = example_machine"
proof -
  have h: "transition example_machine = None" by (simp add: example_machine_eq)
  from lifecycle_calls_without_transition[OF h] h show ?thesis by simp
qed

text \<open>Without an active transition no run of lifecycle calls does anything.\<close>

lemma calls_idle: "transition m = None \<Longrightarrow> calls cs m = m"
proof (induction cs)
  case Nil
  then show ?case by (simp add: calls_def)
next
  case (Cons c cs)
  then have "call c m = m"
    by (cases c) (simp_all add: pause_def resume_def cancel_def end_transition_def)
  with Cons show ?case by (simp add: calls_def)
qed

text \<open>
  C2. On a machine with an active transition, \<open>cancel()\<close> sets the state to the
  transition's \<open>from\<close>, discards the transition and emits \<open>transition.cancel\<close> and
  nothing else; after it no lifecycle call emits anything, so no enter, leave or
  action-end handler of that transition is called.
\<close>

theorem cancel_restores_from:
  assumes "transition m = Some t"
  shows "state (cancel m) = from_state t \<and> transition (cancel m) = None \<and>
         emitted (cancel m) = emitted m @
           [\<lparr>path = ''transition.cancel'', at_state = from_state t,
             event_object = TransitionEvent ''cancel'',
             called = vm_list (handlers m) ''transition.cancel''\<rparr>] \<and>
         calls cs (cancel m) = cancel m"
proof -
  have t: "transition (cancel m) = None"
    using assms by (simp add: cancel_def update_def dispatch_def)
  from assms t calls_idle[OF t] show ?thesis
    by (simp add: cancel_def update_def dispatch_def)
qed

text \<open>
  Cancelling the paused example machine takes the state from \<open>b\<close> back to \<open>a\<close>; a
  later \<open>resume()\<close> and \<open>end()\<close> find nothing to do.
\<close>

theorem cancel_restores_from_witness:
  "transition paused_machine \<noteq> None \<and> state paused_machine = Str ''b'' \<and>
   state (cancel paused_machine) = Str ''a'' \<and> transition (cancel paused_machine) = None \<and>
   map path (emitted_since paused_machine (cancel paused_machine)) = [''transition.cancel''] \<and>
   calls [CallResume, CallEnd] (cancel paused_machine) = cancel paused_machine"
proof -
  let ?t = "\<lparr>action = ''next'', from_state = Str ''a'', to_state = Str ''b'',
             args = [], phase = Enter, paused = True\<rparr>"
  have h: "transition paused_machine = Some ?t" by (simp add: paused_machine_def)
  from cancel_restores_from[OF h, of "[CallResume, CallEnd]"] h show ?thesis
    by (simp add: emitted_since_def paused_machine_def)
qed

text \<open>
  C3. On a machine with an active transition, \<open>end()\<close> sets the state to the
  transition's \<open>to\<close>, discards the transition and emits \<open>transition.end\<close>, then
  \<open>system.change\<close>, then \<open>system.complete\<close> exactly when the new state is the
  configured final state; no state or action event of the transition is dispatched.
\<close>

theorem end_commits_to:
  assumes "transition m = Some t"
  shows "state (end_transition m) = to_state t \<and> transition (end_transition m) = None \<and>
         emitted (end_transition m) = emitted m @
           [\<lparr>path = ''transition.end'', at_state = to_state t,
             event_object = TransitionEvent ''end'',
             called = vm_list (handlers m) ''transition.end''\<rparr>,
            \<lparr>path = ''system.change'', at_state = to_state t,
             event_object = SystemEvent ''change'',
             called = vm_list (handlers m) ''system.change''\<rparr>] @
           (if to_state t = final (config m)
            then [\<lparr>path = ''system.complete'', at_state = to_state t,
                   event_object = SystemEvent ''complete'',
                   called = vm_list (handlers m) ''system.complete''\<rparr>]
            else [])"
  using assms by (simp add: end_transition_def update_def dispatch_def isComplete_def Let_def)

text \<open>Ending the paused example machine: \<open>b\<close> is final, so all three are emitted.\<close>

theorem end_commits_to_witness:
  "transition paused_machine \<noteq> None \<and>
   state (end_transition paused_machine) = Str ''b'' \<and>
   transition (end_transition paused_machine) = None \<and>
   map path (emitted_since paused_machine (end_transition paused_machine)) =
     [''transition.end'', ''system.change'', ''system.complete'']"
proof -
  let ?t = "\<lparr>action = ''next'', from_state = Str ''a'', to_state = Str ''b'',
             args = [], phase = Enter, paused = True\<rparr>"
  have h: "transition paused_machine = Some ?t" by (simp add: paused_machine_def)
  have f: "final (config paused_machine) = Str ''b''"
    by (simp add: paused_machine_def example_machine_eq)
  from end_commits_to[OF h] h f show ?thesis
    by (simp add: emitted_since_def)
qed

section \<open>Registering handlers\<close>

lemma targets_of_nonempty: "targets_of tgt = Some tgts \<Longrightarrow> tgts \<noteq> []"
  by (auto simp: targets_of_def split: option.splits if_splits)

text \<open>
  C8. When an id resolves to an event and to targets, and the handler is not a
  function, \<open>on\<close> raises the error of \<open>addHandler\<close> at once and the machine, its
  handler table included, is as before.
\<close>

theorem on_rejects_handler_that_is_no_function:
  assumes "resolve_id m ident = Some (event, type, tgt)"
    and "targets_of tgt = Some tgts"
    and "\<not> isFunction fn"
  shows "on m ident fn =
           (Throw (Error (''Error assigning '' @ family_text event @ ''.'' @ type
                          @ '' handler; callback is not a Function'')), m)"
proof -
  from assms(2) obtain t ts where "tgts = t # ts"
    using targets_of_nonempty by (cases tgts) auto
  with assms show ?thesis by (simp add: on_def addHandler_def)
qed

text \<open>A string as the handler of \<open>enter:b\<close> on the example machine.\<close>

theorem on_rejects_handler_that_is_no_function_witness:
  "resolve_id example_machine ''enter:b'' = Some (Family ''state'', ''enter'', Some ''b'') \<and>
   targets_of (Some ''b'') = Some [''b''] \<and> \<not> isFunction (Str ''callback'') \<and>
   on example_machine ''enter:b'' (Str ''callback'') =
     (Throw (Error ''Error assigning state.enter handler; callback is not a Function''),
      example_machine)"
proof -
  have r: "resolve_id example_machine ''enter:b'' = Some (Family ''state'', ''enter'', Some ''b'')"
    by (simp add: eval_defs)
  have t: "targets_of (Some ''b'') = Some [''b'']"
    by (simp add: eval_defs)
  have f: "\<not> isFunction (Str ''callback'')" by simp
  from on_rejects_handler_that_is_no_function[OF r t f] r t f show ?thesis by simp
qed

text \<open>
  The id \<open>constructor\<close> names no event, state or action of the example machine, yet
  \<open>eventLookup['constructor']\<close> finds the built-in \<open>Object\<close>; the id resolves, and a
  handler that is no function is rejected with that text in the message.
\<close>

lemma inherited_id_is_rejected_too:
  "on example_machine ''constructor'' (Str ''callback'') =
     (Throw (Error ''Error assigning function Object() { [native code] }.constructor handler; callback is not a Function''),
      example_machine)"
  by (simp add: on_def resolve_id_def id_match_def type_and_target_def isTypeChar_def isWord_def
        lookup_event_def eventLookup_def object_prototype_def targets_of_def addHandler_def)

text \<open>An id made of word characters only is a type without family or target.\<close>

lemma takeWhile_all: "list_all P xs \<Longrightarrow> takeWhile P xs = xs"
  by (induction xs) auto

lemma dropWhile_all: "list_all P xs \<Longrightarrow> dropWhile P xs = []"
  by (induction xs) auto

lemma words_from_all: "list_all isWord s \<Longrightarrow> cur @ s \<noteq> [] \<Longrightarrow> words_from cur s = [cur @ s]"
  by (induction s arbitrary: cur) auto

lemma id_match_word:
  assumes "ident \<noteq> []" and "list_all isWord ident"
  shows "id_match ident = Some (None, ident, None)"
proof -
  have "list_all isTypeChar ident"
    using assms(2) by (induction ident) (auto simp: isTypeChar_def)
  with assms show ?thesis
    by (simp add: id_match_def type_and_target_def takeWhile_all dropWhile_all)
qed

lemma id_match_at_sign: "id_match (CHR ''@'' # s) = None"
  by (simp add: id_match_def isWord_def)

text \<open>
  C7, as amended. Let an id be a non-empty run of word characters that is no key of
  \<open>eventLookup\<close> (nor a member inherited by it). If it is a known state, \<open>on\<close> adds the
  handler at the path \<open>state.<id>.leave\<close>; if it is no state and a known action,
  \<open>on\<close> adds the handler at \<open>action.<id>.end\<close>. An id that starts with \<open>@\<close> does not
  match the id pattern: \<open>on\<close> returns and registers nothing.
\<close>

theorem bare_id_registers_leave_or_end:
  assumes "ident \<noteq> []" and "list_all isWord ident" and "lookup_event ident = None"
    and "isFunction fn"
  shows "(ident \<in> set (states m) \<longrightarrow>
            on m ident fn =
              (Ok (), m\<lparr>handlers := vm_insert (handlers m) (''state.'' @ ident @ ''.leave'') fn\<rparr>)) \<and>
         (ident \<notin> set (states m) \<and> vm_has (actions m) ident \<longrightarrow>
            on m ident fn =
              (Ok (), m\<lparr>handlers := vm_insert (handlers m) (''action.'' @ ident @ ''.end'') fn\<rparr>)) \<and>
         on m (CHR ''@'' # ident) fn = (Ok (), m)"
proof -
  have w: "words ident = [ident]"
    using assms(1,2) words_from_all[of ident "[]"] by (simp add: words_def)
  have t: "targets_of (Some ident) = Some [ident]"
    using assms(1) w by (simp add: targets_of_def)
  show ?thesis
    using assms t
    by (simp add: on_def resolve_id_def id_match_word id_match_at_sign addHandler_def)
qed

text \<open>On the example machine: \<open>a\<close> is a state, \<open>next\<close> is an action.\<close>

theorem bare_id_registers_leave_or_end_witness:
  "''a'' \<in> set (states example_machine) \<and> lookup_event ''a'' = None \<and>
   on example_machine ''a'' (Fun 5) =
     (Ok (), example_machine\<lparr>handlers :=
        vm_insert (handlers example_machine) ''state.a.leave'' (Fun 5)\<rparr>) \<and>
   ''next'' \<notin> set (states example_machine) \<and> vm_has (actions example_machine) ''next'' \<and>
   lookup_event ''next'' = None \<and>
   on example_machine ''next'' (Fun 5) =
     (Ok (), example_machine\<lparr>handlers :=
        vm_insert (handlers example_machine) ''action.next.end'' (Fun 5)\<rparr>) \<and>
   on example_machine ''@next'' (Fun 5) = (Ok (), example_machine)"
proof -
  have a: "''a'' \<noteq> []" "list_all isWord ''a''" "lookup_event ''a'' = None"
    by (simp_all add: isWord_def lookup_event_def eventLookup_def object_prototype_def)
  have n: "''next'' \<noteq> []" "list_all isWord ''next''" "lookup_event ''next'' = None"
    by (simp_all add: isWord_def lookup_event_def eventLookup_def object_prototype_def)
  have f: "isFunction (Fun 5)" by simp
  have s: "''a'' \<in> set (states example_machine)" "''next'' \<notin> set (states example_machine)"
    "vm_has (actions example_machine) ''next''"
    by (simp_all add: example_machine_eq vm_has_def below_def)
  from bare_id_registers_leave_or_end[OF a f, of example_machine]
       bare_id_registers_leave_or_end[OF n f, of example_machine] a n s
  show ?thesis by simp
qed

text \<open>
  C7 as stated fails: \<open>next\<close> is a known action, and registering at \<open>@next\<close> leaves
  the machine as it was, with no entry at \<open>action.next.start\<close>.
\<close>

theorem at_sign_id_registers_nothing_counterexample:
  "vm_has (actions example_machine) ''next'' \<and>
   on example_machine ''@next'' (Fun 5) = (Ok (), example_machine) \<and>
   vm_get (handlers (snd (on example_machine ''@next'' (Fun 5)))) ''action.next.start'' = None"
  by (simp add: on_def resolve_id_def id_match_at_sign example_machine_eq vm_has_def below_def vm_get_def)

text \<open>
  A path is not an id: in the id \<open>state.a.leave\<close> the type is \<open>a.leave\<close> and the target
  is missing, so the handler goes to \<open>state.*.a.leave\<close>.
\<close>

lemma dotted_id_is_a_type:
  "on example_machine ''state.a.leave'' (Fun 5) =
     (Ok (), example_machine\<lparr>handlers :=
        vm_insert (handlers example_machine) ''state.*.a.leave'' (Fun 5)\<rparr>)"
  by (simp add: on_def resolve_id_def id_match_def type_and_target_def isTypeChar_def isWord_def targets_of_def addHandler_def)

section \<open>The rule tables\<close>

text \<open>
  The two rule tables of a constructed machine are those \<open>add\<close> builds from the rule
  list, starting from empty tables.
\<close>

lemma tables_initialize:
  assumes "\<And>m'. actions m' = actions m \<Longrightarrow> transitions m' = transitions m \<Longrightarrow>
             actions (snd (add_events m' (events cfg))) = A \<and>
             transitions (snd (add_events m' (events cfg))) = T"
  shows "actions (snd (initialize m cfg)) = A \<and> transitions (snd (initialize m cfg)) = T"
proof -
  let ?m1 = "addStates (addStates (m\<lparr>config := cfg\<rparr>) KeyFrom (events cfg)) KeyTo (events cfg)"
  let ?cfg = "if \<not> truthy (initial cfg)
                  then cfg\<lparr>initial := (case states ?m1 of [] \<Rightarrow> Undefined | s # ss \<Rightarrow> Str s)\<rparr>
                  else cfg"
  let ?m2 = "?m1\<lparr>config := ?cfg\<rparr>"
  obtain r3 m3 where a: "add_events ?m2 (events ?cfg) = (r3, m3)" by (cases "add_events ?m2 (events ?cfg)")
  obtain r4 m4 where b: "add_handlers m3 (config_handlers ?cfg) = (r4, m4)" by (cases "add_handlers m3 (config_handlers ?cfg)")
  have e: "events ?cfg = events cfg" by simp
  have "actions ?m2 = actions m" "transitions ?m2 = transitions m"
    by (simp_all add: addStates_frame)
  from assms[OF this] a e have s3: "actions m3 = A \<and> transitions m3 = T" by simp
  have s4: "actions m4 = A \<and> transitions m4 = T" using add_handlers_frame[OF b] s3 by simp
  show ?thesis
    unfolding initialize_def Let_def using a b s3 s4
    by (cases r3; cases r4) (simp_all)
qed

lemma tables_StateMachine:
  assumes "\<And>m'. actions m' = [] \<Longrightarrow> transitions m' = [] \<Longrightarrow>
             actions (snd (add_events m' (events cfg))) = A \<and>
             transitions (snd (add_events m' (events cfg))) = T"
  shows "actions (snd (StateMachine tgt cfg)) = A \<and> transitions (snd (StateMachine tgt cfg)) = T"
proof -
  have "actions (snd (initialize (empty_machine tgt cfg) cfg)) = A \<and>
        transitions (snd (initialize (empty_machine tgt cfg) cfg)) = T"
    by (rule tables_initialize) (simp add: assms empty_machine_def)
  then show ?thesis
    by (cases "initialize (empty_machine tgt cfg) cfg" rule: prod.exhaust[where 'a="unit result"])
       (auto simp: StateMachine_def update_def dispatch_def split: result.splits)
qed

text \<open>How the shorthand pattern reads \<open>name: from > rest\<close>.\<close>

lemma takeWhile_stop: "list_all P xs \<Longrightarrow> \<not> P y \<Longrightarrow> takeWhile P (xs @ y # ys) = xs"
  by (induction xs) auto

lemma dropWhile_stop: "list_all P xs \<Longrightarrow> \<not> P y \<Longrightarrow> dropWhile P (xs @ y # ys) = y # ys"
  by (induction xs) auto

lemma word_is_no_space: "isWord c \<Longrightarrow> \<not> isSpace c"
  by (auto simp: isWord_def isSpace_def Let_def)

lemma rule_match_chain:
  assumes "name \<noteq> []" and "list_all isWord name" and "from \<noteq> []" and "list_all isWord from"
    and "isWord c" and "list_all (\<lambda>x. \<not> isLineTerminator x) rest"
  shows "rule_match (name @ '': '' @ from @ '' > '' @ c # rest) =
           Some (name, from, CHR ''>'', c # rest)"
proof -
  obtain f fs where f: "from = f # fs" using assms(3) by (cases "from") auto
  obtain n ns where n: "name = n # ns" using assms(1) by (cases name) auto
  have fw: "isWord f" using assms(4) f by simp
  have nl: "\<not> isLineTerminator c" using assms(5) by (auto simp: isWord_def isLineTerminator_def Let_def)
  have colon: "\<not> isWord CHR '':''" "\<not> isSpace CHR '':''" "isSpace CHR '' ''" "\<not> isWord CHR '' ''"
     "\<not> isWord CHR ''>''" "\<not> isSpace CHR ''>''"
    by (simp_all add: isWord_def isSpace_def)
  have t1: "takeWhile isWord (name @ CHR '':'' # CHR '' '' # from @ CHR '' '' # CHR ''>'' # CHR '' '' # c # rest) = name"
    using assms(2) colon by (simp add: takeWhile_stop)
  have d1: "dropWhile isWord (name @ CHR '':'' # CHR '' '' # from @ CHR '' '' # CHR ''>'' # CHR '' '' # c # rest)
     = CHR '':'' # CHR '' '' # from @ CHR '' '' # CHR ''>'' # CHR '' '' # c # rest"
    using assms(2) colon by (simp add: dropWhile_stop)
  have t2: "takeWhile isWord (from @ CHR '' '' # CHR ''>'' # CHR '' '' # c # rest) = from"
    using assms(4) colon by (simp add: takeWhile_stop)
  have d2: "dropWhile isWord (from @ CHR '' '' # CHR ''>'' # CHR '' '' # c # rest)
     = CHR '' '' # CHR ''>'' # CHR '' '' # c # rest"
    using assms(4) colon by (simp add: dropWhile_stop)
  have s2: "dropWhile isSpace (from @ CHR '' '' # CHR ''>'' # CHR '' '' # c # rest)
     = from @ CHR '' '' # CHR ''>'' # CHR '' '' # c # rest"
    using f fw word_is_no_space by simp
  have da: "dotAll (c # rest) = c # rest"
    using assms(6) nl by (simp add: dotAll_def takeWhile_all)
  have at: "rule_match_at (name @ CHR '':'' # CHR '' '' # from @ CHR '' '' # CHR ''>'' # CHR '' '' # c # rest)
     = Some (name, from, CHR ''>'', c # rest)"
    unfolding rule_match_at_def Let_def t1 d1
    using assms(1,3,5) colon word_is_no_space[OF assms(5)]
    by (simp add: s2 t2 d2 da)
  from at n show ?thesis by simp
qed

text \<open>
  C5, as amended. Compilation does not expand a chain. For a shorthand string
  \<open>name: from > rest\<close>, where \<open>name\<close> and \<open>from\<close> are words and \<open>rest\<close> starts with a word
  character and stays on the line, exactly one rule is added, whatever further
  operators and states \<open>rest\<close> holds: the actions table maps \<open>name.from\<close> to the whole
  of \<open>rest\<close>, and the transitions table lists \<open>name\<close> under \<open>from\<close>.
\<close>

theorem chained_shorthand_is_one_rule:
  assumes "name \<noteq> []" and "list_all isWord name" and "from \<noteq> []" and "list_all isWord from"
    and "isWord c" and "list_all (\<lambda>x. \<not> isLineTerminator x) rest"
    and "events cfg = [Shorthand (name @ '': '' @ from @ '' > '' @ c # rest)]"
  shows "actions (snd (StateMachine tgt cfg)) = [(name @ ''.'' @ from, Str (c # rest))] \<and>
         transitions (snd (StateMachine tgt cfg)) = [(from, [name])]"
proof (rule tables_StateMachine)
  fix m' :: machine
  assume "actions m' = []" and "transitions m' = []"
  with rule_match_chain[OF assms(1-6)] assms(7)
  show "actions (snd (add_events m' (events cfg))) = [(name @ ''.'' @ from, Str (c # rest))] \<and>
        transitions (snd (add_events m' (events cfg))) = [(from, [name])]"
    by (simp add: add_event_def add_def vm_add_def vm_list_def vm_get_def)
qed

text \<open>\<open>next: a > b > c\<close> adds the one rule from \<open>a\<close> to \<open>b > c\<close>.\<close>

theorem chained_shorthand_is_one_rule_witness:
  "events chain_config = [Shorthand (''next'' @ '': '' @ ''a'' @ '' > '' @ CHR ''b'' # '' > c'')] \<and>
   actions (snd (StateMachine Undefined chain_config)) = [(''next.a'', Str ''b > c'')] \<and>
   transitions (snd (StateMachine Undefined chain_config)) = [(''a'', [''next''])]"
proof -
  have h: "''next'' \<noteq> []" "list_all isWord ''next''" "''a'' \<noteq> []" "list_all isWord ''a''"
    "isWord CHR ''b''" "list_all (\<lambda>x. \<not> isLineTerminator x) '' > c''"
    by (simp_all add: isWord_def isLineTerminator_def)
  have e: "events chain_config = [Shorthand (''next'' @ '': '' @ ''a'' @ '' > '' @ CHR ''b'' # '' > c'')]"
    by (simp add: chain_config_def)
  from chained_shorthand_is_one_rule[OF h e, of Undefined] e show ?thesis by simp
qed

text \<open>
  C5 as stated fails: after \<open>next: a > b > c\<close> the target of \<open>next\<close> from \<open>a\<close> is not
  \<open>b\<close>, there is no rule \<open>next\<close> from \<open>b\<close>, and no action is permitted from \<open>b\<close>.
\<close>

theorem chained_shorthand_not_expanded_counterexample:
  "events chain_config = [Shorthand ''next: a > b > c''] \<and>
   vm_get (actions (snd (StateMachine Undefined chain_config))) ''next.a'' = Some (Str ''b > c'') \<and>
   vm_get (actions (snd (StateMachine Undefined chain_config))) ''next.b'' = None \<and>
   vm_list (transitions (snd (StateMachine Undefined chain_config))) ''b'' = []"
  by (simp add: chain_config_def eval_defs)

text \<open>
  The states of a shorthand rule are not collected: \<open>event[key]\<close> of a string is
  undefined. The machine of the chained rule has no states and, with no initial state
  configured, its state is undefined and \<open>next\<close> is not permitted.
\<close>

lemma shorthand_rules_add_no_states:
  "states (snd (StateMachine Undefined chain_config)) = [] \<and>
   state (snd (StateMachine Undefined chain_config)) = Undefined \<and>
   \<not> can (snd (StateMachine Undefined chain_config)) ''next''"
  by (simp add: chain_config_def eval_defs can_def)

section \<open>Running an action\<close>

text \<open>
  A transition that is pending and not paused runs through all its phases: what
  \<open>exec\<close> emits, and the state at each dispatch.
\<close>

lemma exec_runs_all_phases:
  assumes "transition m = Some t" and "\<not> paused t" and "phase t = Pending"
  shows "exec m =
     m\<lparr>state := to_state t, transition := None,
       emitted := emitted m @
         [\<lparr>path = ''state.'' @ js_string (from_state t) @ ''.leave'', at_state = state m,
           event_object = StateEvent ''leave'' (js_string (from_state t)),
           called = vm_list (handlers m) (''state.'' @ js_string (from_state t) @ ''.leave'')\<rparr>,
          \<lparr>path = ''state.*.leave'', at_state = state m,
           event_object = StateEvent ''leave'' (js_string (from_state t)),
           called = vm_list (handlers m) ''state.*.leave''\<rparr>,
          \<lparr>path = ''action.'' @ action t @ ''.start'', at_state = state m,
           event_object = ActionEvent ''start'' (action t),
           called = vm_list (handlers m) (''action.'' @ action t @ ''.start'')\<rparr>,
          \<lparr>path = ''action.*.start'', at_state = state m,
           event_object = ActionEvent ''start'' (action t),
           called = vm_list (handlers m) ''action.*.start''\<rparr>,
          \<lparr>path = ''state.'' @ js_string (to_state t) @ ''.enter'', at_state = to_state t,
           event_object = StateEvent ''enter'' (js_string (to_state t)),
           called = vm_list (handlers m) (''state.'' @ js_string (to_state t) @ ''.enter'')\<rparr>,
          \<lparr>path = ''state.*.enter'', at_state = to_state t,
           event_object = StateEvent ''enter'' (js_string (to_state t)),
           called = vm_list (handlers m) ''state.*.enter''\<rparr>,
          \<lparr>path = ''action.'' @ action t @ ''.end'', at_state = to_state t,
           event_object = ActionEvent ''end'' (action t),
           called = vm_list (handlers m) (''action.'' @ action t @ ''.end'')\<rparr>,
          \<lparr>path = ''action.*.end'', at_state = to_state t,
           event_object = ActionEvent ''end'' (action t),
           called = vm_list (handlers m) ''action.*.end''\<rparr>,
          \<lparr>path = ''system.change'', at_state = to_state t,
           event_object = SystemEvent ''change'',
           called = vm_list (handlers m) ''system.change''\<rparr>] @
         (if to_state t = final (config m)
          then [\<lparr>path = ''system.complete'', at_state = to_state t,
                 event_object = SystemEvent ''complete'',
                 called = vm_list (handlers m) ''system.complete''\<rparr>]
          else [])\<rparr>"
  using assms
  by (simp add: exec_def eval_nat_numeral advance_def dispatch_def update_def isComplete_def Let_def)

lemma create_fresh:
  "create h m act rest = Inr t \<Longrightarrow>
     \<not> paused t \<and> phase t = Pending \<and> action t = act \<and> from_state t = state m"
  by (auto simp: create_def Let_def split: jsval.splits if_splits)

lemma create_fixed:
  "vm_get (actions m) (act @ ''.'' @ js_string (state m)) = Some (Str s) \<Longrightarrow>
     create h m act rest =
       Inr \<lparr>action = act, from_state = state m, to_state = Str s, args = rest,
            phase = Pending, paused = False\<rparr>"
  by (simp add: create_def)

text \<open>The tables of a machine configured with the one rule \<open>next\<close> from \<open>a\<close> to \<open>b\<close>.\<close>

lemma tables_next_a_b:
  assumes "events cfg = [Keys ''next'' ''a'' (Str ''b'')]"
  shows "actions (snd (StateMachine tgt cfg)) = [(''next.a'', Str ''b'')] \<and>
         transitions (snd (StateMachine tgt cfg)) = [(''a'', [''next''])]"
proof (rule tables_StateMachine)
  fix m' :: machine
  assume "actions m' = []" and "transitions m' = []"
  with assms
  show "actions (snd (add_events m' (events cfg))) = [(''next.a'', Str ''b'')] \<and>
        transitions (snd (add_events m' (events cfg))) = [(''a'', [''next''])]"
    by (simp add: add_event_def add_def vm_add_def vm_list_def vm_get_def)
qed

text \<open>
  C1. Take a machine with the rule tables of a machine constructed from
  \<open>events = [{name: 'next', from: 'a', to: 'b'}]\<close>, in state \<open>a\<close>. Then \<open>do('next')\<close>
  returns true, ends in state \<open>b\<close> with no active transition, and dispatches in this
  order: \<open>transition.start\<close>, \<open>state.a.leave\<close>, \<open>state.*.leave\<close>, \<open>action.next.start\<close>,
  \<open>action.*.start\<close>, all in state \<open>a\<close>; then, the state committed, \<open>state.b.enter\<close>,
  \<open>state.*.enter\<close>, \<open>action.next.end\<close>, \<open>action.*.end\<close>, \<open>system.change\<close>, and
  \<open>system.complete\<close> exactly when \<open>b\<close> is the configured final state. The handlers
  called on the way are opaque: they are recorded, and do not call back into the
  machine.
\<close>

theorem do_next_dispatch_order:
  assumes "events cfg = [Keys ''next'' ''a'' (Str ''b'')]"
    and "StateMachine tgt cfg = (Ok (), m0)"
    and "actions m = actions m0" and "transitions m = transitions m0"
    and "state m = Str ''a''"
  shows "fst (do_action h m ''next'' rest) = Ok True \<and>
         state (snd (do_action h m ''next'' rest)) = Str ''b'' \<and>
         transition (snd (do_action h m ''next'' rest)) = None \<and>
         map (\<lambda>e. (path e, at_state e)) (emitted_since m (snd (do_action h m ''next'' rest))) =
           [(''transition.start'', Str ''a''),
            (''state.a.leave'', Str ''a''), (''state.*.leave'', Str ''a''),
            (''action.next.start'', Str ''a''), (''action.*.start'', Str ''a''),
            (''state.b.enter'', Str ''b''), (''state.*.enter'', Str ''b''),
            (''action.next.end'', Str ''b''), (''action.*.end'', Str ''b''),
            (''system.change'', Str ''b'')] @
           (if final (config m) = Str ''b'' then [(''system.complete'', Str ''b'')] else [])"
proof -
  from tables_next_a_b[OF assms(1), of tgt] assms(2,3,4)
  have tb: "actions m = [(''next.a'', Str ''b'')]" "transitions m = [(''a'', [''next''])]"
    by simp_all
  have c: "can m ''next''"
    using tb assms(5) by (simp add: can_def vm_has_value_def vm_list_def vm_get_def)
  let ?t = "\<lparr>action = ''next'', from_state = Str ''a'', to_state = Str ''b'', args = rest,
             phase = Pending, paused = False\<rparr>"
  have cr: "create h m ''next'' rest = Inr ?t"
    using tb assms(5) create_fixed[of m "''next''" "''b''" h rest] by (simp add: vm_get_def)
  define m1 where "m1 = update (m\<lparr>transition := Some ?t\<rparr>) ''transition'' ''start''"
  have d: "do_action h m ''next'' rest = (Ok True, exec m1)"
    using c cr by (simp add: do_action_def m1_def)
  have t1: "transition m1 = Some ?t" by (simp add: m1_def update_def dispatch_def)
  have f1: "state m1 = Str ''a''" "config m1 = config m"
    "emitted m1 = emitted m @
       [\<lparr>path = ''transition.start'', at_state = Str ''a'',
         event_object = TransitionEvent ''start'',
         called = vm_list (handlers m) ''transition.start''\<rparr>]"
    using assms(5) by (simp_all add: m1_def update_def dispatch_def)
  have st: "state (exec m1) = Str ''b''" and tr: "transition (exec m1) = None"
    by (simp_all add: exec_runs_all_phases[OF t1])
  have em: "map (\<lambda>e. (path e, at_state e)) (drop (length (emitted m)) (emitted (exec m1))) =
           [(''transition.start'', Str ''a''),
            (''state.a.leave'', Str ''a''), (''state.*.leave'', Str ''a''),
            (''action.next.start'', Str ''a''), (''action.*.start'', Str ''a''),
            (''state.b.enter'', Str ''b''), (''state.*.enter'', Str ''b''),
            (''action.next.end'', Str ''b''), (''action.*.end'', Str ''b''),
            (''system.change'', Str ''b'')] @
           (if final (config m) = Str ''b'' then [(''system.complete'', Str ''b'')] else [])"
    by (simp add: exec_runs_all_phases[OF t1] f1)
  from st tr em show ?thesis
    by (simp add: d emitted_since_def)
qed

text \<open>The example machine, where \<open>b\<close> is final.\<close>

theorem do_next_dispatch_order_witness:
  "events example_config = [Keys ''next'' ''a'' (Str ''b'')] \<and>
   StateMachine Undefined example_config = (Ok (), example_machine) \<and>
   state example_machine = Str ''a'' \<and>
   fst (do_action stray_host example_machine ''next'' []) = Ok True \<and>
   state (snd (do_action stray_host example_machine ''next'' [])) = Str ''b'' \<and>
   map (\<lambda>e. (path e, at_state e))
     (emitted_since example_machine (snd (do_action stray_host example_machine ''next'' []))) =
     [(''transition.start'', Str ''a''),
      (''state.a.leave'', Str ''a''), (''state.*.leave'', Str ''a''),
      (''action.next.start'', Str ''a''), (''action.*.start'', Str ''a''),
      (''state.b.enter'', Str ''b''), (''state.*.enter'', Str ''b''),
      (''action.next.end'', Str ''b''), (''action.*.end'', Str ''b''),
      (''system.change'', Str ''b''), (''system.complete'', Str ''b'')]"
proof -
  have e: "events example_config = [Keys ''next'' ''a'' (Str ''b'')]"
    by (simp add: example_config_def)
  have c: "StateMachine Undefined example_config = (Ok (), example_machine)"
    unfolding example_machine_def by (simp add: example_config_def eval_defs)
  have s: "state example_machine = Str ''a''" and f: "final (config example_machine) = Str ''b''"
    by (simp_all add: example_machine_eq)
  from do_next_dispatch_order[OF e c refl refl s, of stray_host "[]"] e c s f
  show ?thesis by simp
qed

text \<open>
  What \<open>do\<close> does with handlers that leave the machine alone. An action that is not
  permitted: \<open>do\<close> returns false and the machine is as before. An action that is
  permitted, once the lifecycle object is created: \<open>do\<close> returns true, and
  \<open>transition.start\<close> is the first thing emitted.
\<close>

lemma do_action_not_permitted:
  "\<not> can m act \<Longrightarrow> do_action h m act rest = (Ok False, m)"
  by (simp add: do_action_def)

lemma do_action_permitted:
  assumes "can m act" and "create h m act rest = Inr t"
  shows "fst (do_action h m act rest) = Ok True \<and>
         map path (take 1 (emitted_since m (snd (do_action h m act rest)))) = [''transition.start'']"
proof -
  define m1 where "m1 = update (m\<lparr>transition := Some t\<rparr>) ''transition'' ''start''"
  have t1: "transition m1 = Some t" by (simp add: m1_def update_def dispatch_def)
  have e1: "emitted m1 = emitted m @
     [\<lparr>path = ''transition.start'', at_state = state m,
       event_object = TransitionEvent ''start'',
       called = vm_list (handlers m) ''transition.start''\<rparr>]"
    by (simp add: m1_def update_def dispatch_def)
  from create_fresh[OF assms(2)] have "\<not> paused t" "phase t = Pending" by simp_all
  from exec_runs_all_phases[OF t1 this] e1
  have "map path (take 1 (emitted_since m (exec m1))) = [''transition.start'']"
    by (simp add: emitted_since_def)
  with assms show ?thesis by (simp add: do_action_def m1_def)
qed

text \<open>
  With handler bodies that leave the machine alone, \<open>do_action_reentrant\<close> is
  \<open>do_action\<close>. When the handlers of \<open>transition.start\<close> leave no active transition
  behind, it raises.
\<close>

lemma call_handlers_opaque: "call_handlers (\<lambda>fn m'. m') m p = m"
proof -
  have "foldl (\<lambda>m' fn. m') m fns = m" for fns :: "jsval list"
    by (induction fns) simp_all
  then show ?thesis by (simp add: call_handlers_def)
qed

lemma do_action_reentrant_opaque:
  "do_action_reentrant (\<lambda>fn m'. m') h m act rest = do_action h m act rest"
  by (cases "create h m act rest")
     (simp_all add: do_action_reentrant_def do_action_def call_handlers_opaque update_def
        dispatch_def)

lemma do_action_reentrant_discarded:
  assumes "can m act" and "create h m act rest = Inr t"
    and "transition (call_handlers body
            (update (m\<lparr>transition := Some t\<rparr>) ''transition'' ''start'')
            ''transition.start'') = None"
  shows "fst (do_action_reentrant body h m act rest) = Throw TypeError"
  using assms by (simp add: do_action_reentrant_def Let_def)

text \<open>
  C4, at the input where the code departs from it. The example machine has one handler
  at \<open>transition.start\<close>, and that handler calls \<open>cancel()\<close>. \<open>can('next')\<close> holds, so
  \<open>do('next')\<close> should return true. The transition is created and \<open>transition.start\<close>
  is dispatched; the handler's \<open>cancel()\<close> restores the state, deletes the transition
  and emits \<open>transition.cancel\<close>; then \<open>this.transition.exec()\<close> finds \<open>null\<close>, and
  \<open>do\<close> raises a \<open>TypeError\<close> instead of returning true.
\<close>

theorem do_raises_when_start_handler_cancels:
  "can start_handler_machine ''next'' \<and>
   vm_list (handlers start_handler_machine) ''transition.start'' = [Fun 8] \<and>
   fst (do_action_reentrant cancels_on_start stray_host start_handler_machine ''next'' []) =
     Throw TypeError \<and>
   state (snd (do_action_reentrant cancels_on_start stray_host start_handler_machine ''next'' [])) =
     Str ''a'' \<and>
   map path (emitted_since start_handler_machine
      (snd (do_action_reentrant cancels_on_start stray_host start_handler_machine ''next'' []))) =
     [''transition.start'', ''transition.cancel'']"
proof -
  have m: "start_handler_machine =
     \<lparr>target = Undefined, state = Str ''a'', states = [''a'', ''b''],
      transitions = [(''a'', [''next''])], actions = [(''next.a'', Str ''b'')],
      handlers = [(''transition.start'', [Fun 8])],
      config = \<lparr>events = [Keys ''next'' ''a'' (Str ''b'')], initial = Str ''a'',
                 final = Str ''b'', defer_init = False,
                 config_handlers = [(''transition.start'', Fun 8)], debug = False\<rparr>,
      transition = None,
      emitted = [\<lparr>path = ''system.initialize'', at_state = Str ''a'',
                  event_object = SystemEvent ''initialize'', called = []\<rparr>]\<rparr>"
    by (simp add: start_handler_machine_def start_handler_config_def example_config_def eval_defs Let_def)
  show ?thesis
    unfolding m
    by (simp add: do_action_reentrant_def can_def vm_has_value_def vm_list_def vm_get_def
          create_def call_handlers_def cancels_on_start_def cancel_def update_def dispatch_def
          emitted_since_def Let_def)
qed

end
